theory Spec2Isabelle
  imports Main "HOL-Library.AList" "HOL-Library.Char_ord" "HOL-Library.List_Lexorder"
begin

section \<open>Data model\<close>

text \<open>
  The server keeps one JavaScript \<^verbatim>\<open>Map\<close> per category (\<^verbatim>\<open>pdfFiles\<close>, \<^verbatim>\<open>imageFiles\<close> in
  \<^verbatim>\<open>data.js\<close>) from an id to a metadata object
  \<^verbatim>\<open>{ id, filename, filepath, size, uploadDate, editDate }\<close>.
  The handlers are those of the source file that serves both categories; \<^verbatim>\<open>index.js\<close> is an
  earlier state of the same server, with PDF endpoints only and no edit. The image endpoints
  repeat the PDF endpoints on \<^verbatim>\<open>imageFiles\<close>; the development follows the PDF endpoints.

  A \<^verbatim>\<open>Map\<close> iterates in insertion order and holds each key once, so it is an association
  list: \<^verbatim>\<open>get\<close> is \<^const>\<open>map_of\<close>, \<^verbatim>\<open>set\<close> is \<^const>\<open>AList.update\<close> (an existing key keeps
  its place, a new key goes last), \<^verbatim>\<open>delete\<close> is \<^const>\<open>AList.delete\<close>.

  Strings are byte strings (the UTF-8 form of the JavaScript string). Timestamps are the strings
  \<^verbatim>\<open>new Date().toISOString()\<close> returns; the reading of the clock is an argument \<open>now\<close> of each
  handler. ISO timestamps of this fixed width are ordered in time exactly as they are ordered as
  strings, which is the order \<open>\<le>\<close> on \<^typ>\<open>string\<close> used below.
\<close>

record metadata =
  id_md :: string
  filename :: string
  filepath :: string
  size_md :: nat
  uploadDate :: string
  editDate :: string

type_synonym index = "(string \<times> metadata) list"

text \<open>\<^verbatim>\<open>Array.from(pdfFiles.values())\<close>\<close>

definition values_of :: "index \<Rightarrow> metadata list" where
  "values_of idx = map snd idx"

text \<open>
  The blobs live in the file system: a map from a path to the bytes stored there.
  \<^verbatim>\<open>fs.unlink\<close> rejects with \<open>ENOENT\<close> when nothing is stored at the path; \<open>fault\<close> is the
  environment's choice to make the call fail for another reason (permissions, a device error).
\<close>

type_synonym filesystem = "string \<rightharpoonup> string"

datatype fs_error = ENOENT | EIO

definition unlink :: "bool \<Rightarrow> filesystem \<Rightarrow> string \<Rightarrow> fs_error + filesystem" where
  "unlink fault disk p =
     (if fault then Inl EIO
      else if disk p = None then Inl ENOENT
      else Inr (disk(p := None)))"

definition readFile :: "bool \<Rightarrow> filesystem \<Rightarrow> string \<Rightarrow> fs_error + string" where
  "readFile fault disk p =
     (if fault then Inl EIO
      else case disk p of None \<Rightarrow> Inl ENOENT | Some data \<Rightarrow> Inr data)"

record state =
  pdfFiles :: index
  disk :: filesystem

section \<open>Requests\<close>

text \<open>
  The multipart file of a request, as the client sends it, and \<^verbatim>\<open>req.file\<close>, as the upload
  middleware hands it to the route handler.
\<close>

record upload =
  up_originalname :: string
  up_mimetype :: string
  up_bytes :: string

record file_info =
  originalname :: string
  path :: string
  size_file :: nat

definition UPLOADS_PDFS_DIR :: string where
  "UPLOADS_PDFS_DIR = ''uploads/pdfs/''"

definition UPLOADS_IMAGES_DIR :: string where
  "UPLOADS_IMAGES_DIR = ''uploads/images/''"

text \<open>
  \<^verbatim>\<open>upload.single("file")\<close> with the disk storage configured in the source: the file is stored
  under the directory chosen by its mime type, named by its original name, before the route
  handler runs. The route handlers never write a blob themselves: they only record
  \<^verbatim>\<open>req.file.path\<close>. A request without a file leaves the disk alone and \<^verbatim>\<open>req.file\<close> undefined.
\<close>

definition upload_single :: "upload option \<Rightarrow> filesystem \<Rightarrow> file_info option \<times> filesystem" where
  "upload_single file d =
     (case file of
        None \<Rightarrow> (None, d)
      | Some u \<Rightarrow>
          (let isPdf = (up_mimetype u = ''application/pdf'');
               uploadPath = (if isPdf then UPLOADS_PDFS_DIR else UPLOADS_IMAGES_DIR);
               p = uploadPath @ up_originalname u
           in (Some \<lparr>originalname = up_originalname u, path = p,
                     size_file = length (up_bytes u)\<rparr>,
               d(p \<mapsto> up_bytes u))))"

text \<open>
  The fields the edit handler reads from \<^verbatim>\<open>req.body\<close>. A field that is absent is \<open>None\<close>;
  \<^verbatim>\<open>if (newFilename)\<close> holds for a string that is present and not empty.
\<close>

record body =
  newFilename :: "string option"
  newUploadDate :: "string option"
  newEditDate :: "string option"

datatype response =
    Created string
  | Updated string
  | Deleted
  | Content string
  | Http_error nat string

section \<open>The PDF route handlers\<close>

text \<open>\<^verbatim>\<open>app.get("/pdf/fetch/:id")\<close>\<close>

definition pdf_fetch :: "bool \<Rightarrow> string \<Rightarrow> state \<Rightarrow> response" where
  "pdf_fetch fault ident s =
     (case map_of (pdfFiles s) ident of
        None \<Rightarrow> Http_error 404 ''PDF not found''
      | Some md \<Rightarrow>
          (case readFile fault (disk s) (filepath md) of
             Inr data \<Rightarrow> Content data
           | Inl e \<Rightarrow> Http_error 500 ''Internal Server Error''))"

text \<open>
  \<^verbatim>\<open>app.post("/pdf/create")\<close>: \<open>new_id\<close> is the value of \<^verbatim>\<open>uuidv4()\<close>, \<open>now\<close> the value of
  \<^verbatim>\<open>new Date().toISOString()\<close>.
\<close>

definition pdf_create_handler ::
  "string \<Rightarrow> string \<Rightarrow> file_info option \<Rightarrow> state \<Rightarrow> response \<times> state" where
  "pdf_create_handler new_id now file s =
     (case file of
        None \<Rightarrow> (Http_error 400 ''No file uploaded'', s)
      | Some f \<Rightarrow>
          (case find (\<lambda>file. filename file = originalname f) (values_of (pdfFiles s)) of
             Some existingFile \<Rightarrow>
               (Http_error 409 ''File with the same name already exists'', s)
           | None \<Rightarrow>
               (let md = \<lparr>id_md = new_id, filename = originalname f, filepath = path f,
                          size_md = size_file f, uploadDate = now, editDate = now\<rparr>
                in (Created new_id, s\<lparr>pdfFiles := AList.update new_id md (pdfFiles s)\<rparr>))))"

definition pdf_create :: "string \<Rightarrow> string \<Rightarrow> upload option \<Rightarrow> state \<Rightarrow> response \<times> state" where
  "pdf_create new_id now file s =
     (let (f, d) = upload_single file (disk s)
      in pdf_create_handler new_id now f (s\<lparr>disk := d\<rparr>))"

text \<open>
  \<^verbatim>\<open>app.patch("/pdf/edit/:id")\<close>. The handler changes the metadata object that the
  \<^verbatim>\<open>Map\<close> holds; every \<^verbatim>\<open>return next(...)\<close> comes before the first assignment to it, so the
  object is changed only on the path that ends in \<^verbatim>\<open>pdfFiles.set(id, metadata)\<close>.
\<close>

definition apply_body :: "string \<Rightarrow> body \<Rightarrow> metadata \<Rightarrow> metadata" where
  "apply_body now b md =
     (let md1 = (case newFilename b of
                   Some v \<Rightarrow> if v \<noteq> [] then md\<lparr>filename := v\<rparr> else md
                 | None \<Rightarrow> md);
          md2 = (case newUploadDate b of
                   Some v \<Rightarrow> if v \<noteq> [] then md1\<lparr>uploadDate := v\<rparr> else md1
                 | None \<Rightarrow> md1);
          md3 = (case newEditDate b of
                   Some v \<Rightarrow> if v \<noteq> [] then md2\<lparr>editDate := v\<rparr> else md2
                 | None \<Rightarrow> md2)
      in md3\<lparr>editDate := now\<rparr>)"

definition pdf_edit_handler ::
  "string \<Rightarrow> bool \<Rightarrow> string \<Rightarrow> file_info option \<Rightarrow> body \<Rightarrow> state \<Rightarrow> response \<times> state" where
  "pdf_edit_handler now fault ident file b s =
     (case map_of (pdfFiles s) ident of
        None \<Rightarrow> (Http_error 404 ''PDF not found'', s)
      | Some md \<Rightarrow>
          (case file of
             None \<Rightarrow>
               (Updated ident,
                s\<lparr>pdfFiles := AList.update ident (apply_body now b md) (pdfFiles s)\<rparr>)
           | Some f \<Rightarrow>
               (case find (\<lambda>file. filename file = originalname f \<and> id_md file \<noteq> ident)
                       (values_of (pdfFiles s)) of
                  Some existingFile \<Rightarrow>
                    (Http_error 409 ''File with the same name already exists'', s)
                | None \<Rightarrow>
                    (case unlink fault (disk s) (filepath md) of
                       Inl err \<Rightarrow> (Http_error 500 ''Error deleting old PDF file'', s)
                     | Inr d \<Rightarrow>
                         (let md' = md\<lparr>filename := originalname f, filepath := path f,
                                       size_md := size_file f\<rparr>
                          in (Updated ident,
                              s\<lparr>pdfFiles := AList.update ident (apply_body now b md') (pdfFiles s),
                                disk := d\<rparr>))))))"

definition pdf_edit ::
  "string \<Rightarrow> bool \<Rightarrow> string \<Rightarrow> upload option \<Rightarrow> body \<Rightarrow> state \<Rightarrow> response \<times> state" where
  "pdf_edit now fault ident file b s =
     (let (f, d) = upload_single file (disk s)
      in pdf_edit_handler now fault ident f b (s\<lparr>disk := d\<rparr>))"

text \<open>\<^verbatim>\<open>app.delete("/pdf/delete/:id")\<close>\<close>

definition pdf_delete :: "bool \<Rightarrow> string \<Rightarrow> state \<Rightarrow> response \<times> state" where
  "pdf_delete fault ident s =
     (case map_of (pdfFiles s) ident of
        None \<Rightarrow> (Http_error 404 ''PDF not found'', s)
      | Some md \<Rightarrow>
          (case unlink fault (disk s) (filepath md) of
             Inr d \<Rightarrow>
               (Deleted, s\<lparr>pdfFiles := AList.delete ident (pdfFiles s), disk := d\<rparr>)
           | Inl err \<Rightarrow> (Http_error 500 ''Error deleting PDF file'', s)))"

text \<open>The status code of a response: \<^verbatim>\<open>res.send\<close> answers 200, the error handler answers
  with the status of the error.\<close>

fun status :: "response \<Rightarrow> nat" where
  "status (Http_error code msg) = code"
| "status r = 200"

section \<open>Sequences of transactions\<close>

datatype txn =
    Create string string "upload option"
  | Edit string bool string "upload option" body
  | Delete bool string

fun step :: "txn \<Rightarrow> state \<Rightarrow> response \<times> state" where
  "step (Create new_id now file) s = pdf_create new_id now file s"
| "step (Edit now fault ident file b) s = pdf_edit now fault ident file b s"
| "step (Delete fault ident) s = pdf_delete fault ident s"

text \<open>A run of transactions that all succeed; \<open>None\<close> when one of them answers an error.\<close>

fun run :: "txn list \<Rightarrow> state \<Rightarrow> state option" where
  "run [] s = Some s"
| "run (t # ts) s =
     (case step t s of (r, s') \<Rightarrow> if status r = 200 then run ts s' else None)"

definition empty_state :: state where
  "empty_state = \<lparr>pdfFiles = [], disk = Map.empty\<rparr>"

section \<open>Clock readings of a run\<close>






section \<open>The snapshot codec\<close>

text \<open>
  \<^verbatim>\<open>data.js\<close> writes the index as \<^verbatim>\<open>JSON.stringify(Array.from(pdfFiles.entries()))\<close> and reads
  it back with \<^verbatim>\<open>new Map(JSON.parse(data))\<close>. A JavaScript value that JSON text denotes:
  a number is an integer here (the only number in a metadata object is \<open>size\<close>, a byte count),
  and an object lists its properties in the order they were created.
\<close>

datatype json =
    JNull
  | JBool bool
  | JNum int
  | JStr string
  | JArr "json list"
  | JObj "(string \<times> json) list"

datatype js_error = SyntaxError | TypeError | SystemError fs_error

text \<open>
  \<^verbatim>\<open>data.trim() === ""\<close>: the text holds white space and line terminators only. Besides
  the six ASCII ones these are U+00A0, U+1680, U+2000 to U+200A, U+2028, U+2029, U+202F, U+205F,
  U+3000 and U+FEFF, in their UTF-8 form.
\<close>

definition ascii_space :: "char \<Rightarrow> bool" where
  "ascii_space c = (c \<in> {CHR 0x09, CHR 0x0A, CHR 0x0B, CHR 0x0C, CHR 0x0D, CHR 0x20})"

definition wide_space :: "char \<Rightarrow> char \<Rightarrow> char \<Rightarrow> bool" where
  "wide_space a b c =
     (a = CHR 0xE1 \<and> b = CHR 0x9A \<and> c = CHR 0x80 \<or>
      a = CHR 0xE2 \<and> b = CHR 0x80 \<and>
        (of_char c \<in> {0x80 .. (0x8A::nat)} \<or> c = CHR 0xA8 \<or> c = CHR 0xA9 \<or> c = CHR 0xAF) \<or>
      a = CHR 0xE2 \<and> b = CHR 0x81 \<and> c = CHR 0x9F \<or>
      a = CHR 0xE3 \<and> b = CHR 0x80 \<and> c = CHR 0x80 \<or>
      a = CHR 0xEF \<and> b = CHR 0xBB \<and> c = CHR 0xBF)"

fun blank :: "string \<Rightarrow> bool" where
  "blank [] = True"
| "blank (a # r) =
     (if ascii_space a then blank r
      else case r of
        [] \<Rightarrow> False
      | b # r2 \<Rightarrow>
          if a = CHR 0xC2 \<and> b = CHR 0xA0 then blank r2
          else (case r2 of
                  [] \<Rightarrow> False
                | c # r3 \<Rightarrow> if wide_space a b c then blank r3 else False))"

text \<open>
  The \<^verbatim>\<open>Map\<close> that \<^verbatim>\<open>new Map(entries)\<close> builds. A key or a value may be \<^verbatim>\<open>undefined\<close>
  (\<open>None\<close>). Keys are compared by value when they are primitive; an array or an object that
  \<^verbatim>\<open>JSON.parse\<close> has just built is equal to no other key. The constructor takes \<^verbatim>\<open>null\<close> as no
  entries, iterates an array or a string, and throws a \<^verbatim>\<open>TypeError\<close> for a value that cannot be
  iterated and for an item that is not an object; of an item it reads the properties \<open>0\<close> and
  \<open>1\<close>.
\<close>

type_synonym jsmap = "(json option \<times> json option) list"

fun primitive :: "json option \<Rightarrow> bool" where
  "primitive (Some (JArr xs)) = False"
| "primitive (Some (JObj ps)) = False"
| "primitive v = True"

definition map_set :: "json option \<Rightarrow> json option \<Rightarrow> jsmap \<Rightarrow> jsmap" where
  "map_set k v m = (if primitive k then AList.update k v m else m @ [(k, v)])"

fun item_get :: "json list \<Rightarrow> nat \<Rightarrow> json option" where
  "item_get [] n = None"
| "item_get (x # xs) 0 = Some x"
| "item_get (x # xs) (Suc n) = item_get xs n"

fun add_entries :: "json list \<Rightarrow> jsmap \<Rightarrow> js_error + jsmap" where
  "add_entries [] m = Inr m"
| "add_entries (JArr xs # items) m = add_entries items (map_set (item_get xs 0) (item_get xs 1) m)"
| "add_entries (JObj ps # items) m = add_entries items (map_set (map_of ps ''0'') (map_of ps ''1'') m)"
| "add_entries (nextItem # items) m = Inl TypeError"

fun new_Map :: "json \<Rightarrow> js_error + jsmap" where
  "new_Map JNull = Inr []"
| "new_Map (JArr items) = add_entries items []"
| "new_Map (JStr s) = (if s = [] then Inr [] else Inl TypeError)"
| "new_Map entries = Inl TypeError"

text \<open>
  A metadata object and \<^verbatim>\<open>Array.from(pdfFiles.entries())\<close> as JavaScript values, and the
  \<^verbatim>\<open>Map\<close> that an index is.
\<close>

definition md_json :: "metadata \<Rightarrow> json" where
  "md_json md =
     JObj [(''id'', JStr (id_md md)), (''filename'', JStr (filename md)),
           (''filepath'', JStr (filepath md)), (''size'', JNum (int (size_md md))),
           (''uploadDate'', JStr (uploadDate md)), (''editDate'', JStr (editDate md))]"

definition entries :: "index \<Rightarrow> json" where
  "entries idx = JArr (map (\<lambda>(k, md). JArr [JStr k, md_json md]) idx)"

definition js_of_index :: "index \<Rightarrow> jsmap" where
  "js_of_index idx = map (\<lambda>(k, md). (Some (JStr k), Some (md_json md))) idx"

text \<open>
  \<^verbatim>\<open>savedPdfFilesDataToFile\<close> returns the text it writes. \<^verbatim>\<open>loadPdfFilesDataFromFile\<close> takes
  the outcome of \<^verbatim>\<open>fs.readFile\<close> and the \<^verbatim>\<open>Map\<close> that \<^verbatim>\<open>pdfFiles\<close> holds (empty when the module
  is loaded); \<open>load_try\<close> is the body of its \<^verbatim>\<open>try\<close>, and the \<^verbatim>\<open>catch\<close> sets \<^verbatim>\<open>pdfFiles\<close> to
  an empty \<^verbatim>\<open>Map\<close>. The result \<open>Inl\<close> would be an error that leaves the function.
  \<^verbatim>\<open>JSON.stringify\<close> and \<^verbatim>\<open>JSON.parse\<close> are arguments.
\<close>

definition savedPdfFilesDataToFile :: "(json \<Rightarrow> string) \<Rightarrow> index \<Rightarrow> string" where
  "savedPdfFilesDataToFile stringify idx = stringify (entries idx)"

definition load_try ::
  "(string \<Rightarrow> js_error + json) \<Rightarrow> fs_error + string \<Rightarrow> jsmap \<Rightarrow> js_error + jsmap" where
  "load_try parse file m =
     (case file of
        Inl e \<Rightarrow> Inl (SystemError e)
      | Inr data \<Rightarrow>
          if blank data then Inr m
          else (case parse data of
                  Inl e \<Rightarrow> Inl e
                | Inr ents \<Rightarrow> new_Map ents))"

definition loadPdfFilesDataFromFile ::
  "(string \<Rightarrow> js_error + json) \<Rightarrow> fs_error + string \<Rightarrow> jsmap \<Rightarrow> js_error + jsmap" where
  "loadPdfFilesDataFromFile parse file m =
     (case load_try parse file m of
        Inl err \<Rightarrow> Inr []
      | Inr m' \<Rightarrow> Inr m')"

section \<open>JSON text\<close>

text \<open>
  \<^verbatim>\<open>JSON.stringify\<close> and \<^verbatim>\<open>JSON.parse\<close> of the JavaScript runtime, on the values above.
  \<open>JSON_stringify\<close> writes no white space, escapes the quote, the backslash and the control
  characters below U+0020, and writes all other bytes as they are. \<open>JSON_parse\<close> is a recursive
  descent over the JSON grammar; it reads integers only, so a number with a fraction or an
  exponent, which no serialized index contains, is rejected. Its fuel is the length of the text,
  which bounds the depth of the calls.
\<close>

definition digit_char :: "nat \<Rightarrow> char" where
  "digit_char d = char_of (48 + d)"

definition is_digit :: "char \<Rightarrow> bool" where
  "is_digit c = (48 \<le> (of_char c :: nat) \<and> (of_char c :: nat) \<le> 57)"

definition digit_val :: "char \<Rightarrow> nat" where
  "digit_val c = of_char c - 48"

function show_nat :: "nat \<Rightarrow> string" where
  "show_nat n = (if n < 10 then [digit_char n] else show_nat (n div 10) @ [digit_char (n mod 10)])"
  by pat_completeness auto
termination
  by (relation "measure id") auto

declare show_nat.simps [simp del]

definition show_int :: "int \<Rightarrow> string" where
  "show_int i = (if i < 0 then CHR ''-'' # show_nat (nat (- i)) else show_nat (nat i))"

definition hex_char :: "nat \<Rightarrow> char" where
  "hex_char d = (if d < 10 then char_of (48 + d) else char_of (87 + d))"

definition escape_char :: "char \<Rightarrow> string" where
  "escape_char c =
     (if c = CHR 0x22 then [CHR 0x5C, CHR 0x22]
      else if c = CHR 0x5C then [CHR 0x5C, CHR 0x5C]
      else if c = CHR 0x08 then [CHR 0x5C, CHR ''b'']
      else if c = CHR 0x0C then [CHR 0x5C, CHR ''f'']
      else if c = CHR 0x0A then [CHR 0x5C, CHR ''n'']
      else if c = CHR 0x0D then [CHR 0x5C, CHR ''r'']
      else if c = CHR 0x09 then [CHR 0x5C, CHR ''t'']
      else if (of_char c :: nat) < 0x20 then
        [CHR 0x5C, CHR ''u'', CHR ''0'', CHR ''0'',
         hex_char (of_char c div 16), hex_char (of_char c mod 16)]
      else [c])"

definition quote :: "string \<Rightarrow> string" where
  "quote s = CHR 0x22 # concat (map escape_char s) @ [CHR 0x22]"

fun join :: "string list \<Rightarrow> string" where
  "join [] = []"
| "join [x] = x"
| "join (x # y # ys) = x @ CHR '','' # join (y # ys)"

fun JSON_stringify :: "json \<Rightarrow> string" where
  "JSON_stringify JNull = ''null''"
| "JSON_stringify (JBool b) = (if b then ''true'' else ''false'')"
| "JSON_stringify (JNum n) = show_int n"
| "JSON_stringify (JStr s) = quote s"
| "JSON_stringify (JArr vs) = CHR ''['' # join (map JSON_stringify vs) @ '']''"
| "JSON_stringify (JObj ps) =
     CHR ''{'' # join (map (\<lambda>(k, v). quote k @ CHR '':'' # JSON_stringify v) ps) @ ''}''"


definition json_ws :: "char \<Rightarrow> bool" where
  "json_ws c = (c \<in> {CHR 0x09, CHR 0x0A, CHR 0x0D, CHR 0x20})"

fun skip_ws :: "string \<Rightarrow> string" where
  "skip_ws [] = []"
| "skip_ws (c # r) = (if json_ws c then skip_ws r else c # r)"

definition hex_val :: "char \<Rightarrow> nat option" where
  "hex_val c =
     (let n = (of_char c :: nat)
      in if 48 \<le> n \<and> n \<le> 57 then Some (n - 48)
         else if 97 \<le> n \<and> n \<le> 102 then Some (n - 87)
         else if 65 \<le> n \<and> n \<le> 70 then Some (n - 55)
         else None)"

definition hex4 :: "char \<Rightarrow> char \<Rightarrow> char \<Rightarrow> char \<Rightarrow> nat option" where
  "hex4 a b c d =
     (case (hex_val a, hex_val b, hex_val c, hex_val d) of
        (Some w, Some x, Some y, Some z) \<Rightarrow> Some (((w * 16 + x) * 16 + y) * 16 + z)
      | _ \<Rightarrow> None)"

definition utf8 :: "nat \<Rightarrow> string" where
  "utf8 cp =
     (if cp < 0x80 then [char_of cp]
      else if cp < 0x800 then [char_of (0xC0 + cp div 64), char_of (0x80 + cp mod 64)]
      else if cp < 0x10000 then
        [char_of (0xE0 + cp div 4096), char_of (0x80 + cp div 64 mod 64), char_of (0x80 + cp mod 64)]
      else
        [char_of (0xF0 + cp div 262144), char_of (0x80 + cp div 4096 mod 64),
         char_of (0x80 + cp div 64 mod 64), char_of (0x80 + cp mod 64)])"

definition unescape :: "char \<Rightarrow> char option" where
  "unescape e =
     (if e = CHR 0x22 then Some (CHR 0x22)
      else if e = CHR 0x5C then Some (CHR 0x5C)
      else if e = CHR ''/'' then Some (CHR ''/'')
      else if e = CHR ''b'' then Some (CHR 0x08)
      else if e = CHR ''f'' then Some (CHR 0x0C)
      else if e = CHR ''n'' then Some (CHR 0x0A)
      else if e = CHR ''r'' then Some (CHR 0x0D)
      else if e = CHR ''t'' then Some (CHR 0x09)
      else None)"

text \<open>
  The low half of a surrogate pair, when the text goes on with one; it takes six characters,
  which \<open>str_body\<close> then drops.
\<close>

definition low_surrogate :: "string \<Rightarrow> (nat \<times> string) option" where
  "low_surrogate s =
     (case s of
        b # u # a1 # a2 # a3 # a4 # r \<Rightarrow>
          if b = CHR 0x5C \<and> u = CHR ''u'' then
            (case hex4 a1 a2 a3 a4 of
               Some lo \<Rightarrow> if 0xDC00 \<le> lo \<and> lo < 0xE000 then Some (lo, r) else None
             | None \<Rightarrow> None)
          else None
      | _ \<Rightarrow> None)"

fun str_body :: "string \<Rightarrow> (string \<times> string) option" where
  "str_body [] = None"
| "str_body (c # r) =
     (if c = CHR 0x22 then Some ([], r)
      else if c = CHR 0x5C then
        (case r of
           [] \<Rightarrow> None
         | e # r1 \<Rightarrow>
             if e = CHR ''u'' then
               (case r1 of
                  a1 # a2 # a3 # a4 # r2 \<Rightarrow>
                    (case hex4 a1 a2 a3 a4 of
                       None \<Rightarrow> None
                     | Some cu \<Rightarrow>
                         (case (if 0xD800 \<le> cu \<and> cu < 0xDC00 then low_surrogate r2 else None) of
                            Some (lo, r3) \<Rightarrow>
                              map_option (\<lambda>(s, r'). (utf8 (0x10000 + (cu - 0xD800) * 0x400 + (lo - 0xDC00)) @ s, r'))
                                (str_body (drop 6 r2))
                          | None \<Rightarrow> map_option (\<lambda>(s, r'). (utf8 cu @ s, r')) (str_body r2)))
                | _ \<Rightarrow> None)
             else
               (case unescape e of
                  None \<Rightarrow> None
                | Some ch \<Rightarrow> map_option (\<lambda>(s, r'). (ch # s, r')) (str_body r1)))
      else if (of_char c :: nat) < 0x20 then None
      else map_option (\<lambda>(s, r'). (c # s, r')) (str_body r))"


fun take_digits :: "string \<Rightarrow> nat \<Rightarrow> nat \<times> string" where
  "take_digits [] acc = (acc, [])"
| "take_digits (c # r) acc =
     (if is_digit c then take_digits r (acc * 10 + digit_val c) else (acc, c # r))"

definition parse_nat :: "string \<Rightarrow> (nat \<times> string) option" where
  "parse_nat s =
     (case s of
        [] \<Rightarrow> None
      | c # r \<Rightarrow>
          if c = CHR ''0'' then Some (0, r)
          else if is_digit c then Some (take_digits r (digit_val c))
          else None)"

definition number_end :: "string \<Rightarrow> bool" where
  "number_end s =
     (case s of
        [] \<Rightarrow> True
      | c # r \<Rightarrow> \<not> (is_digit c \<or> c = CHR ''.'' \<or> c = CHR ''e'' \<or> c = CHR ''E''))"

definition parse_number :: "string \<Rightarrow> (json \<times> string) option" where
  "parse_number s =
     (case s of
        [] \<Rightarrow> None
      | c # r \<Rightarrow>
          if c = CHR ''-'' then
            (case parse_nat r of
               Some (n, r') \<Rightarrow> if number_end r' then Some (JNum (- int n), r') else None
             | None \<Rightarrow> None)
          else
            (case parse_nat s of
               Some (n, r') \<Rightarrow> if number_end r' then Some (JNum (int n), r') else None
             | None \<Rightarrow> None))"

fun expect :: "string \<Rightarrow> string \<Rightarrow> string option" where
  "expect [] s = Some s"
| "expect (p # ps) [] = None"
| "expect (p # ps) (c # cs) = (if p = c then expect ps cs else None)"

fun parse_value :: "nat \<Rightarrow> string \<Rightarrow> (json \<times> string) option"
  and parse_elems :: "nat \<Rightarrow> string \<Rightarrow> json list \<Rightarrow> (json \<times> string) option"
  and parse_members :: "nat \<Rightarrow> string \<Rightarrow> (string \<times> json) list \<Rightarrow> (json \<times> string) option"
where
  "parse_value 0 s = None"
| "parse_value (Suc n) s =
     (case skip_ws s of
        [] \<Rightarrow> None
      | c # r \<Rightarrow>
          if c = CHR ''['' then
            (case skip_ws r of
               [] \<Rightarrow> None
             | d # r' \<Rightarrow> if d = CHR '']'' then Some (JArr [], r') else parse_elems n r [])
          else if c = CHR ''{'' then
            (case skip_ws r of
               [] \<Rightarrow> None
             | d # r' \<Rightarrow> if d = CHR ''}'' then Some (JObj [], r') else parse_members n r [])
          else if c = CHR 0x22 then map_option (\<lambda>(str, r'). (JStr str, r')) (str_body r)
          else if c = CHR ''t'' then map_option (Pair (JBool True)) (expect ''rue'' r)
          else if c = CHR ''f'' then map_option (Pair (JBool False)) (expect ''alse'' r)
          else if c = CHR ''n'' then map_option (Pair JNull) (expect ''ull'' r)
          else parse_number (c # r))"
| "parse_elems 0 s acc = None"
| "parse_elems (Suc n) s acc =
     (case parse_value n s of
        None \<Rightarrow> None
      | Some (v, r) \<Rightarrow>
          (case skip_ws r of
             [] \<Rightarrow> None
           | c # r' \<Rightarrow>
               if c = CHR '','' then parse_elems n r' (acc @ [v])
               else if c = CHR '']'' then Some (JArr (acc @ [v]), r')
               else None))"
| "parse_members 0 s acc = None"
| "parse_members (Suc n) s acc =
     (case skip_ws s of
        [] \<Rightarrow> None
      | q # r \<Rightarrow>
          if q = CHR 0x22 then
            (case str_body r of
               None \<Rightarrow> None
             | Some (k, r1) \<Rightarrow>
                 (case skip_ws r1 of
                    [] \<Rightarrow> None
                  | c # r2 \<Rightarrow>
                      if c = CHR '':'' then
                        (case parse_value n r2 of
                           None \<Rightarrow> None
                         | Some (v, r3) \<Rightarrow>
                             (case skip_ws r3 of
                                [] \<Rightarrow> None
                              | d # r4 \<Rightarrow>
                                  if d = CHR '','' then parse_members n r4 (AList.update k v acc)
                                  else if d = CHR ''}'' then Some (JObj (AList.update k v acc), r4)
                                  else None))
                      else None))
          else None)"

definition JSON_parse :: "string \<Rightarrow> js_error + json" where
  "JSON_parse s =
     (case parse_value (Suc (length s)) s of
        None \<Rightarrow> Inl SyntaxError
      | Some (v, r) \<Rightarrow> if skip_ws r = [] then Inr v else Inl SyntaxError)"

text \<open>
  Notions for the round trip: a value whose objects have distinct keys, a text that starts with
  a delimiter, a character that can start a value, and the text of one property.
\<close>

fun wf_json :: "json \<Rightarrow> bool" where
  "wf_json (JArr vs) = (\<forall>v \<in> set vs. wf_json v)"
| "wf_json (JObj ps) = (distinct (map fst ps) \<and> (\<forall>p \<in> set ps. wf_json (snd p)))"
| "wf_json v = True"

definition delim :: "string \<Rightarrow> bool" where
  "delim s = (case s of [] \<Rightarrow> True | c # r \<Rightarrow> c = CHR '','' \<or> c = CHR '']'' \<or> c = CHR ''}'')"

definition head_ok :: "char \<Rightarrow> bool" where
  "head_ok c = (\<not> json_ws c \<and> c \<noteq> CHR '']'' \<and> c \<noteq> CHR ''}'' \<and> c \<noteq> CHR '','')"

definition member_text :: "string \<times> json \<Rightarrow> string" where
  "member_text p = quote (fst p) @ CHR '':'' # JSON_stringify (snd p)"

section \<open>Example requests and states\<close>

definition a_pdf :: upload where
  "a_pdf = \<lparr>up_originalname = ''a.pdf'', up_mimetype = ''application/pdf'', up_bytes = ''old''\<rparr>"

definition b_pdf :: upload where
  "b_pdf = \<lparr>up_originalname = ''b.pdf'', up_mimetype = ''application/pdf'', up_bytes = ''new''\<rparr>"

definition no_body :: body where
  "no_body = \<lparr>newFilename = None, newUploadDate = None, newEditDate = None\<rparr>"

definition one_pdf :: state where
  "one_pdf = snd (pdf_create ''id-1'' ''2024-01-01T00:00:00.000Z'' (Some a_pdf) empty_state)"

definition stale_date :: body where
  "stale_date = \<lparr>newFilename = None, newUploadDate = None,
                  newEditDate = Some ''1999-12-31T23:59:59.000Z''\<rparr>"

definition rename_to_b :: body where
  "rename_to_b = \<lparr>newFilename = Some ''b.pdf'', newUploadDate = None, newEditDate = None\<rparr>"

definition orphan_pdf :: state where
  "orphan_pdf = one_pdf\<lparr>disk := Map.empty\<rparr>"

definition rename_to_a :: body where
  "rename_to_a = \<lparr>newFilename = Some ''a.pdf'', newUploadDate = None, newEditDate = None\<rparr>"


definition twins_pdf :: state where
  "twins_pdf =
     \<lparr>pdfFiles =
        [(''id-1'', \<lparr>id_md = ''id-1'', filename = ''a.pdf'', filepath = ''uploads/pdfs/a.pdf'',
                    size_md = 3, uploadDate = ''2024-01-01T00:00:00.000Z'',
                    editDate = ''2024-01-01T00:00:00.000Z''\<rparr>),
         (''id-2'', \<lparr>id_md = ''id-2'', filename = ''a.pdf'', filepath = ''uploads/pdfs/b.pdf'',
                    size_md = 3, uploadDate = ''2024-01-02T00:00:00.000Z'',
                    editDate = ''2024-01-03T00:00:00.000Z''\<rparr>)],
      disk = [''uploads/pdfs/a.pdf'' \<mapsto> ''old'', ''uploads/pdfs/b.pdf'' \<mapsto> ''new'']\<rparr>"




section \<open>Properties\<close>

lemmas handler_defs = pdf_create_def pdf_create_handler_def pdf_edit_def pdf_edit_handler_def
  pdf_delete_def pdf_fetch_def upload_single_def apply_body_def unlink_def readFile_def
  values_of_def UPLOADS_PDFS_DIR_def UPLOADS_IMAGES_DIR_def empty_state_def Let_def

lemmas example_defs = a_pdf_def b_pdf_def no_body_def one_pdf_def

lemma one_pdf_eq: "one_pdf = \<lparr>pdfFiles = [(''id-1'', \<lparr>id_md = ''id-1'', filename = ''a.pdf'',
    filepath = ''uploads/pdfs/a.pdf'', size_md = 3, uploadDate = ''2024-01-01T00:00:00.000Z'',
    editDate = ''2024-01-01T00:00:00.000Z''\<rparr>)], disk = [''uploads/pdfs/a.pdf'' \<mapsto> ''old'']\<rparr>"
  by (simp add: handler_defs example_defs)

lemma fetch_404: "status (pdf_fetch f j s) = 404 \<longleftrightarrow> j \<notin> fst ` set (pdfFiles s)"
  by (simp add: pdf_fetch_def map_of_eq_None_iff [symmetric] split: option.split sum.split)

lemma delete_404: "status (fst (pdf_delete f j s)) = 404 \<longleftrightarrow> j \<notin> fst ` set (pdfFiles s)"
  by (simp add: pdf_delete_def map_of_eq_None_iff [symmetric] split: option.split sum.split)

lemma delete_ok_absent:
  assumes "pdf_delete fault i s = (Deleted, s')"
  shows "i \<notin> fst ` set (pdfFiles s')"
proof -
  from assms have "pdfFiles s' = AList.delete i (pdfFiles s)"
    by (auto simp: pdf_delete_def split: option.splits sum.splits)
  then show ?thesis by (simp add: delete_notin_dom)
qed

lemma create_handler_error_index:
  "status (fst (pdf_create_handler nid now f s)) \<noteq> 200 \<Longrightarrow>
   pdfFiles (snd (pdf_create_handler nid now f s)) = pdfFiles s"
  by (simp add: pdf_create_handler_def Let_def split: option.splits)

lemma upload_single_cases:
  "upload_single file d = (f, d') \<Longrightarrow>
     (file = None \<and> f = None \<and> d' = d) \<or>
     (\<exists>u. file = Some u \<and> f = Some \<lparr>originalname = up_originalname u,
         path = (if up_mimetype u = ''application/pdf'' then UPLOADS_PDFS_DIR else UPLOADS_IMAGES_DIR) @ up_originalname u,
         size_file = length (up_bytes u)\<rparr>)"
  by (auto simp: upload_single_def Let_def split: option.splits)

lemma create_error_index:
  "status (fst (pdf_create nid now file s)) \<noteq> 200 \<Longrightarrow>
   pdfFiles (snd (pdf_create nid now file s)) = pdfFiles s"
  using create_handler_error_index [of nid now "fst (upload_single file (disk s))" "s\<lparr>disk := snd (upload_single file (disk s))\<rparr>"]
  by (simp add: pdf_create_def split_beta)

lemma edit_handler_error_index:
  "status (fst (pdf_edit_handler now fault i f b s)) \<noteq> 200 \<Longrightarrow>
   pdfFiles (snd (pdf_edit_handler now fault i f b s)) = pdfFiles s"
  by (simp add: pdf_edit_handler_def Let_def split: option.splits sum.splits)

lemma edit_error_index:
  "status (fst (pdf_edit now fault i file b s)) \<noteq> 200 \<Longrightarrow>
   pdfFiles (snd (pdf_edit now fault i file b s)) = pdfFiles s"
  using edit_handler_error_index [of now fault i "fst (upload_single file (disk s))" b "s\<lparr>disk := snd (upload_single file (disk s))\<rparr>"]
  by (simp add: pdf_edit_def split_beta)

lemma count_update_fresh:
  "\<forall>m \<in> set (map snd al). \<not> P m \<Longrightarrow> P v \<Longrightarrow>
   length (filter P (map snd (AList.update k v al))) = 1"
  by (induction al) auto

lemma find_None_all: "find P xs = None \<longleftrightarrow> (\<forall>x \<in> set xs. \<not> P x)"
  by (induction xs) auto

lemma create_handler_ok:
  assumes "pdf_create_handler nid now (Some f) s = (Created i, s')"
  shows "length (filter (\<lambda>m. filename m = originalname f) (values_of (pdfFiles s'))) = 1"
proof -
  let ?md = "\<lparr>id_md = nid, filename = originalname f, filepath = path f,
                size_md = size_file f, uploadDate = now, editDate = now\<rparr>"
  from assms have none: "find (\<lambda>file. filename file = originalname f) (values_of (pdfFiles s)) = None"
    by (auto simp: pdf_create_handler_def split: option.splits)
  with assms have s': "pdfFiles s' = AList.update nid ?md (pdfFiles s)"
    by (auto simp: pdf_create_handler_def Let_def)
  from none have "\<forall>m \<in> set (map snd (pdfFiles s)). \<not> filename m = originalname f"
    by (simp only: find_None_all values_of_def)
  then have "length (filter (\<lambda>m. filename m = originalname f)
               (map snd (AList.update nid ?md (pdfFiles s)))) = 1"
    by (rule count_update_fresh) simp
  then show ?thesis by (simp only: s' values_of_def)
qed

lemma create_handler_conflict:
  "filename m = originalname f \<Longrightarrow> m \<in> set (values_of (pdfFiles s)) \<Longrightarrow>
   pdf_create_handler nid now (Some f) s = (Http_error 409 ''File with the same name already exists'', s)"
  by (auto simp: pdf_create_handler_def find_None_all split: option.splits)


text \<open>
  Claim C9. After a successful delete of an id, the id is absent from the index, so fetching
  it answers 404 and deleting it again answers 404; and for every id, fetch and delete answer
  404 exactly when the id is absent from the index.
\<close>

theorem delete_then_not_found:
  "(pdf_delete fault i s = (Deleted, s') \<longrightarrow>
       i \<notin> fst ` set (pdfFiles s') \<and>
       status (pdf_fetch f1 i s') = 404 \<and>
       status (fst (pdf_delete f2 i s')) = 404) \<and>
   (status (pdf_fetch f3 j s) = 404 \<longleftrightarrow> j \<notin> fst ` set (pdfFiles s)) \<and>
   (status (fst (pdf_delete f4 j s)) = 404 \<longleftrightarrow> j \<notin> fst ` set (pdfFiles s))"
proof (intro conjI impI)
  assume "pdf_delete fault i s = (Deleted, s')"
  then show a: "i \<notin> fst ` set (pdfFiles s')" by (rule delete_ok_absent)
  then show "status (pdf_fetch f1 i s') = 404" by (simp add: fetch_404)
  from a show "status (fst (pdf_delete f2 i s')) = 404" by (simp add: delete_404)
next
  show "status (pdf_fetch f3 j s) = 404 \<longleftrightarrow> j \<notin> fst ` set (pdfFiles s)" by (rule fetch_404)
next
  show "status (fst (pdf_delete f4 j s)) = 404 \<longleftrightarrow> j \<notin> fst ` set (pdfFiles s)" by (rule delete_404)
qed

theorem delete_then_not_found_witness:
  "pdf_delete False ''id-1'' one_pdf = (Deleted, empty_state) \<and>
   ''id-1'' \<notin> fst ` set (pdfFiles empty_state) \<and>
   status (pdf_fetch False ''id-1'' empty_state) = 404 \<and>
   status (fst (pdf_delete False ''id-1'' empty_state)) = 404 \<and>
   status (pdf_fetch False ''id-1'' one_pdf) \<noteq> 404 \<and>
   ''id-1'' \<in> fst ` set (pdfFiles one_pdf)"
proof -
  have h: "pdf_delete False ''id-1'' one_pdf = (Deleted, empty_state)"
    by (simp add: one_pdf_eq) (simp add: handler_defs)
  have k: "''id-1'' \<in> fst ` set (pdfFiles one_pdf)"
    by (simp add: one_pdf_eq)
  from h k show ?thesis
    using delete_then_not_found [of False "''id-1''" one_pdf empty_state False False False "''id-1''" False]
    by simp
qed

lemma create_ok_once:
  assumes "pdf_create nid now (Some u) s = (Created i, s')"
  shows "length (filter (\<lambda>m. filename m = up_originalname u) (values_of (pdfFiles s'))) = 1"
proof -
  obtain f d where ud: "upload_single (Some u) (disk s) = (Some f, d)" and f: "originalname f = up_originalname u"
    by (simp add: upload_single_def Let_def)
  from assms ud have "pdf_create_handler nid now (Some f) (s\<lparr>disk := d\<rparr>) = (Created i, s')"
    by (simp add: pdf_create_def)
  then show ?thesis using f create_handler_ok by metis
qed

lemma create_conflict:
  assumes "m \<in> set (values_of (pdfFiles s))" "filename m = up_originalname u"
  shows "status (fst (pdf_create nid now (Some u) s)) = 409"
proof -
  obtain f d where ud: "upload_single (Some u) (disk s) = (Some f, d)" and f: "originalname f = up_originalname u"
    by (simp add: upload_single_def Let_def)
  have "pdf_create_handler nid now (Some f) (s\<lparr>disk := d\<rparr>) =
     (Http_error 409 ''File with the same name already exists'', s\<lparr>disk := d\<rparr>)"
    by (rule create_handler_conflict [of m]) (use assms f in simp_all)
  with ud show ?thesis by (simp add: pdf_create_def)
qed

lemma filter_one_mem: "length (filter P xs) = 1 \<Longrightarrow> \<exists>x \<in> set xs. P x"
  by (metis filter_False length_0_conv zero_neq_one)

text \<open>
  Claim C4. A create that answers 409 and an edit that answers 404 or 409 leave the index as it
  was. After a create of a file named \<open>f\<close> has succeeded, a second create of a file with the
  same name answers 409, the index is unchanged by it and holds exactly one record named \<open>f\<close>.
\<close>

theorem domain_failure_keeps_index:
  "(status (fst (pdf_create nid now upl s)) = 409 \<longrightarrow>
      pdfFiles (snd (pdf_create nid now upl s)) = pdfFiles s) \<and>
   (status (fst (pdf_edit now' fault i upl' b s')) = 404 \<or>
    status (fst (pdf_edit now' fault i upl' b s')) = 409 \<longrightarrow>
      pdfFiles (snd (pdf_edit now' fault i upl' b s')) = pdfFiles s') \<and>
   (pdf_create id1 t1 (Some u1) s0 = (Created id1, s1) \<and> up_originalname u2 = up_originalname u1 \<longrightarrow>
      status (fst (pdf_create id2 t2 (Some u2) s1)) = 409 \<and>
      pdfFiles (snd (pdf_create id2 t2 (Some u2) s1)) = pdfFiles s1 \<and>
      length (filter (\<lambda>m. filename m = up_originalname u1)
                (values_of (pdfFiles (snd (pdf_create id2 t2 (Some u2) s1))))) = 1)"
proof (intro conjI impI)
  assume "status (fst (pdf_create nid now upl s)) = 409"
  then show "pdfFiles (snd (pdf_create nid now upl s)) = pdfFiles s"
    by (simp add: create_error_index)
next
  assume "status (fst (pdf_edit now' fault i upl' b s')) = 404 \<or>
          status (fst (pdf_edit now' fault i upl' b s')) = 409"
  then have "status (fst (pdf_edit now' fault i upl' b s')) \<noteq> 200" by auto
  then show "pdfFiles (snd (pdf_edit now' fault i upl' b s')) = pdfFiles s'"
    by (rule edit_error_index)
next
  assume a: "pdf_create id1 t1 (Some u1) s0 = (Created id1, s1) \<and> up_originalname u2 = up_originalname u1"
  then have one: "length (filter (\<lambda>m. filename m = up_originalname u1) (values_of (pdfFiles s1))) = 1"
    using create_ok_once by blast
  then obtain m where "m \<in> set (values_of (pdfFiles s1))" "filename m = up_originalname u2"
    using a filter_one_mem [of "\<lambda>m. filename m = up_originalname u1"] by auto
  then show c: "status (fst (pdf_create id2 t2 (Some u2) s1)) = 409"
    by (rule create_conflict)
  then show k: "pdfFiles (snd (pdf_create id2 t2 (Some u2) s1)) = pdfFiles s1"
    by (simp add: create_error_index)
  show "length (filter (\<lambda>m. filename m = up_originalname u1)
                (values_of (pdfFiles (snd (pdf_create id2 t2 (Some u2) s1))))) = 1"
    by (simp only: k one)
qed

theorem domain_failure_keeps_index_witness:
  "status (fst (pdf_create ''id-2'' ''2024-01-02T00:00:00.000Z'' (Some a_pdf) one_pdf)) = 409 \<and>
   pdfFiles (snd (pdf_create ''id-2'' ''2024-01-02T00:00:00.000Z'' (Some a_pdf) one_pdf)) = pdfFiles one_pdf \<and>
   status (fst (pdf_edit ''2024-01-02T00:00:00.000Z'' False ''id-9'' None no_body one_pdf)) = 404 \<and>
   pdfFiles (snd (pdf_edit ''2024-01-02T00:00:00.000Z'' False ''id-9'' None no_body one_pdf)) = pdfFiles one_pdf \<and>
   length (filter (\<lambda>m. filename m = ''a.pdf'')
     (values_of (pdfFiles (snd (pdf_create ''id-2'' ''2024-01-02T00:00:00.000Z'' (Some a_pdf) one_pdf))))) = 1"
proof -
  have h1: "pdf_create ''id-1'' ''2024-01-01T00:00:00.000Z'' (Some a_pdf) empty_state = (Created ''id-1'', one_pdf)"
    by (simp add: one_pdf_eq) (simp add: handler_defs example_defs)
  have h2: "status (fst (pdf_edit ''2024-01-02T00:00:00.000Z'' False ''id-9'' None no_body one_pdf)) = 404"
    by (simp add: one_pdf_eq) (simp add: handler_defs example_defs)
  have h3: "up_originalname a_pdf = ''a.pdf''" by (simp add: a_pdf_def)
  note t = domain_failure_keeps_index [where nid = "''id-2''" and now = "''2024-01-02T00:00:00.000Z''"
        and upl = "Some a_pdf" and s = one_pdf
        and now' = "''2024-01-02T00:00:00.000Z''" and fault = False and i = "''id-9''"
        and upl' = None and b = no_body and s' = one_pdf
        and ?id1.0 = "''id-1''" and ?t1.0 = "''2024-01-01T00:00:00.000Z''" and ?u1.0 = a_pdf and ?s0.0 = empty_state
        and ?s1.0 = one_pdf and ?u2.0 = a_pdf and ?id2.0 = "''id-2''" and ?t2.0 = "''2024-01-02T00:00:00.000Z''"]
  from t [unfolded h3] h1 h2 show ?thesis by blast
qed

lemma apply_body_editDate: "editDate (apply_body now b md) = now"
  by (simp add: apply_body_def Let_def)

lemma edit_handler_success:
  assumes "status (fst (pdf_edit_handler now fault i f b s)) = 200"
  obtains md0 md d where
    "map_of (pdfFiles s) i = Some md0"
    "pdf_edit_handler now fault i f b s =
       (Updated i, s\<lparr>pdfFiles := AList.update i (apply_body now b md) (pdfFiles s), disk := d\<rparr>)"
    "f = None \<and> md = md0 \<and> d = disk s \<or>
     (\<exists>fi. f = Some fi \<and> unlink fault (disk s) (filepath md0) = Inr d \<and>
        md = md0\<lparr>filename := originalname fi, filepath := path fi, size_md := size_file fi\<rparr>)"
proof (cases "map_of (pdfFiles s) i")
  case None
  with assms show ?thesis by (simp add: pdf_edit_handler_def)
next
  case (Some md0)
  show ?thesis
  proof (cases f)
    case None
    with Some that [where ?md0.0 = md0 and md = md0 and d = "disk s"] show ?thesis
      by (simp add: pdf_edit_handler_def)
  next
    case f: (Some fi)
    show ?thesis
    proof (cases "find (\<lambda>file. filename file = originalname fi \<and> id_md file \<noteq> i) (values_of (pdfFiles s))")
      case (Some a)
      with \<open>map_of (pdfFiles s) i = Some md0\<close> f assms show ?thesis
        by (simp add: pdf_edit_handler_def)
    next
      case None
      show ?thesis
      proof (cases "unlink fault (disk s) (filepath md0)")
        case (Inl e)
        with \<open>map_of (pdfFiles s) i = Some md0\<close> f None assms show ?thesis
          by (simp add: pdf_edit_handler_def)
      next
        case (Inr d)
        with \<open>map_of (pdfFiles s) i = Some md0\<close> f None
          that [where ?md0.0 = md0 and d = d and
            md = "md0\<lparr>filename := originalname fi, filepath := path fi, size_md := size_file fi\<rparr>"]
        show ?thesis
          by (simp add: pdf_edit_handler_def Let_def)
      qed
    qed
  qed
qed

lemma edit_handler_editDate:
  assumes "status (fst (pdf_edit_handler now fault i f b s)) = 200"
  shows "\<exists>md. map_of (pdfFiles (snd (pdf_edit_handler now fault i f b s))) i = Some md \<and> editDate md = now"
  using assms by (rule edit_handler_success) (simp add: update_conv' apply_body_editDate)

text \<open>
  Claim C5. After every successful edit the record's \<open>editDate\<close> is the reading of the server
  clock taken by that edit, whatever \<open>newEditDate\<close> the body carries and whether or not a file
  was uploaded.
\<close>

theorem edit_sets_editDate_to_now:
  assumes "status (fst (pdf_edit now fault i upl b s)) = 200"
  shows "\<exists>md. map_of (pdfFiles (snd (pdf_edit now fault i upl b s))) i = Some md \<and>
           editDate md = now"
proof -
  let ?f = "fst (upload_single upl (disk s))" and ?s = "s\<lparr>disk := snd (upload_single upl (disk s))\<rparr>"
  have e: "pdf_edit now fault i upl b s = pdf_edit_handler now fault i ?f b ?s"
    by (simp add: pdf_edit_def split_beta)
  from assms have "status (fst (pdf_edit_handler now fault i ?f b ?s)) = 200"
    by (simp only: e)
  then have "\<exists>md. map_of (pdfFiles (snd (pdf_edit_handler now fault i ?f b ?s))) i = Some md \<and>
               editDate md = now"
    by (rule edit_handler_editDate)
  then show ?thesis by (simp only: e)
qed

theorem edit_sets_editDate_to_now_witness:
  "status (fst (pdf_edit ''2024-01-02T00:00:00.000Z'' False ''id-1'' None stale_date one_pdf)) = 200 \<and>
   (\<exists>md. map_of (pdfFiles (snd (pdf_edit ''2024-01-02T00:00:00.000Z'' False ''id-1'' None stale_date one_pdf)))
           ''id-1'' = Some md \<and> editDate md = ''2024-01-02T00:00:00.000Z'')"
proof -
  have h: "status (fst (pdf_edit ''2024-01-02T00:00:00.000Z'' False ''id-1'' None stale_date one_pdf)) = 200"
    by (simp add: one_pdf_eq) (simp add: handler_defs example_defs)
  from h edit_sets_editDate_to_now [OF h] show ?thesis by simp
qed

lemma apply_body_frame:
  "id_md (apply_body now b md) = id_md md \<and> filepath (apply_body now b md) = filepath md \<and>
   size_md (apply_body now b md) = size_md md"
  by (simp add: apply_body_def Let_def split: option.split)

lemma apply_body_filename:
  "newFilename b = Some n \<Longrightarrow> n \<noteq> [] \<Longrightarrow> filename (apply_body now b md) = n"
  by (simp add: apply_body_def Let_def split: option.split)

text \<open>
  Claim C10. A successful edit that carries a new filename and no file changes the record's
  \<open>filename\<close> to the new name and leaves its \<open>id\<close>, \<open>filepath\<close> and \<open>size\<close> as they were; the
  disk is untouched, so the blob stays where it was stored, under its old name.
\<close>

theorem rename_keeps_filepath_and_size:
  assumes "status (fst (pdf_edit now fault i None b s)) = 200"
    and "newFilename b = Some n" and "n \<noteq> []"
  shows "\<exists>md md'. map_of (pdfFiles s) i = Some md \<and>
           map_of (pdfFiles (snd (pdf_edit now fault i None b s))) i = Some md' \<and>
           filename md' = n \<and> id_md md' = id_md md \<and> filepath md' = filepath md \<and>
           size_md md' = size_md md \<and>
           disk (snd (pdf_edit now fault i None b s)) = disk s"
proof -
  have e: "pdf_edit now fault i None b s = pdf_edit_handler now fault i None b s"
    by (simp add: pdf_edit_def upload_single_def)
  from assms(1) have "status (fst (pdf_edit_handler now fault i None b s)) = 200"
    by (simp only: e)
  then show ?thesis
  proof (rule edit_handler_success)
    fix md0 md d
    assume "map_of (pdfFiles s) i = Some md0"
      and "pdf_edit_handler now fault i None b s =
        (Updated i, s\<lparr>pdfFiles := AList.update i (apply_body now b md) (pdfFiles s), disk := d\<rparr>)"
      and "None = None \<and> md = md0 \<and> d = disk s \<or>
        (\<exists>fi. None = Some fi \<and> unlink fault (disk s) (filepath md0) = Inr d \<and>
          md = md0\<lparr>filename := originalname fi, filepath := path fi, size_md := size_file fi\<rparr>)"
    then show ?thesis
      using assms(2,3) by (simp add: e update_conv' apply_body_frame apply_body_filename)
  qed
qed

theorem rename_keeps_filepath_and_size_witness:
  "status (fst (pdf_edit ''2024-01-02T00:00:00.000Z'' False ''id-1'' None rename_to_b one_pdf)) = 200 \<and>
   newFilename rename_to_b = Some ''b.pdf'' \<and>
   (\<exists>md md'. map_of (pdfFiles one_pdf) ''id-1'' = Some md \<and>
      map_of (pdfFiles (snd (pdf_edit ''2024-01-02T00:00:00.000Z'' False ''id-1'' None rename_to_b one_pdf)))
        ''id-1'' = Some md' \<and>
      filename md' = ''b.pdf'' \<and> id_md md' = id_md md \<and> filepath md' = filepath md \<and>
      size_md md' = size_md md \<and>
      disk (snd (pdf_edit ''2024-01-02T00:00:00.000Z'' False ''id-1'' None rename_to_b one_pdf)) = disk one_pdf)"
proof -
  have h: "status (fst (pdf_edit ''2024-01-02T00:00:00.000Z'' False ''id-1'' None rename_to_b one_pdf)) = 200"
    by (simp add: one_pdf_eq) (simp add: handler_defs rename_to_b_def)
  have k: "newFilename rename_to_b = Some ''b.pdf''" by (simp add: rename_to_b_def)
  have n: "''b.pdf'' \<noteq> []" by simp
  from h k rename_keeps_filepath_and_size [OF h k n] show ?thesis by blast
qed

text \<open>
  Claim C2, as amended. When the id is in the index and nothing is stored at the record's
  \<open>filepath\<close>, the delete answers 500 and changes nothing: the record stays in the index.
  \<^verbatim>\<open>fs.unlink\<close> rejects with \<open>ENOENT\<close> and the handler's \<^verbatim>\<open>catch\<close> treats every rejection alike.
\<close>

theorem delete_with_absent_blob_fails:
  assumes "map_of (pdfFiles s) i = Some md" and "disk s (filepath md) = None"
  shows "pdf_delete fault i s = (Http_error 500 ''Error deleting PDF file'', s)"
  using assms by (simp add: pdf_delete_def unlink_def)

lemma orphan_pdf_eq: "orphan_pdf = \<lparr>pdfFiles = [(''id-1'', \<lparr>id_md = ''id-1'', filename = ''a.pdf'',
    filepath = ''uploads/pdfs/a.pdf'', size_md = 3, uploadDate = ''2024-01-01T00:00:00.000Z'',
    editDate = ''2024-01-01T00:00:00.000Z''\<rparr>)], disk = Map.empty\<rparr>"
  by (simp add: orphan_pdf_def one_pdf_eq)

text \<open>
  Claim C2, as stated, fails: the record \<open>id-1\<close> is in the index, its blob is absent from the
  disk, and the delete answers 500 and keeps the record.
\<close>

theorem delete_with_absent_blob_counterexample:
  "''id-1'' \<in> fst ` set (pdfFiles orphan_pdf) \<and>
   disk orphan_pdf ''uploads/pdfs/a.pdf'' = None \<and>
   pdf_delete False ''id-1'' orphan_pdf = (Http_error 500 ''Error deleting PDF file'', orphan_pdf) \<and>
   ''id-1'' \<in> fst ` set (pdfFiles (snd (pdf_delete False ''id-1'' orphan_pdf)))"
  by (simp add: orphan_pdf_eq) (simp add: handler_defs)

theorem delete_with_absent_blob_fails_witness:
  "map_of (pdfFiles orphan_pdf) ''id-1'' = Some (snd (hd (pdfFiles orphan_pdf))) \<and>
   disk orphan_pdf (filepath (snd (hd (pdfFiles orphan_pdf)))) = None \<and>
   pdf_delete False ''id-1'' orphan_pdf = (Http_error 500 ''Error deleting PDF file'', orphan_pdf)"
proof -
  have h: "map_of (pdfFiles orphan_pdf) ''id-1'' = Some (snd (hd (pdfFiles orphan_pdf)))"
    by (simp add: orphan_pdf_eq)
  have k: "disk orphan_pdf (filepath (snd (hd (pdfFiles orphan_pdf)))) = None"
    by (simp add: orphan_pdf_eq)
  from h k delete_with_absent_blob_fails [OF h k, of False] show ?thesis by blast
qed

text \<open>
  Claim C3, as amended. When an edit carries a file, the id is in the index, no other record
  has the file's name and the removal of the old blob fails, for an I/O reason or because
  nothing is stored at the record's \<open>filepath\<close>, the edit answers 500 and the index is unchanged:
  the record keeps its filename, filepath, size and timestamps. The disk is the disk as the
  upload middleware left it: the new blob has already been stored.
\<close>

theorem edit_fails_when_unlink_fails:
  assumes "map_of (pdfFiles s) i = Some md"
    and "find (\<lambda>file. filename file = up_originalname u \<and> id_md file \<noteq> i)
           (values_of (pdfFiles s)) = None"
    and "unlink fault
           ((disk s)((if up_mimetype u = ''application/pdf''
                      then UPLOADS_PDFS_DIR else UPLOADS_IMAGES_DIR) @ up_originalname u
                     \<mapsto> up_bytes u))
           (filepath md) = Inl e"
  shows "pdf_edit now fault i (Some u) b s =
           (Http_error 500 ''Error deleting old PDF file'',
            s\<lparr>disk := (disk s)((if up_mimetype u = ''application/pdf''
                                 then UPLOADS_PDFS_DIR else UPLOADS_IMAGES_DIR) @ up_originalname u
                                \<mapsto> up_bytes u)\<rparr>) \<and>
         pdfFiles (snd (pdf_edit now fault i (Some u) b s)) = pdfFiles s \<and>
         map_of (pdfFiles (snd (pdf_edit now fault i (Some u) b s))) i = Some md"
  using assms
  by (simp add: pdf_edit_def upload_single_def Let_def pdf_edit_handler_def)

text \<open>
  Claim C3, as stated, fails: the edit answers 500, yet the new blob, absent from the disk
  before the request, is on the disk after it. The upload middleware stores the file before the
  handler tries to remove the old blob.
\<close>

theorem edit_fails_when_unlink_fails_counterexample:
  "status (fst (pdf_edit ''2024-01-02T00:00:00.000Z'' True ''id-1'' (Some b_pdf) no_body one_pdf)) = 500 \<and>
   disk one_pdf ''uploads/pdfs/b.pdf'' = None \<and>
   disk (snd (pdf_edit ''2024-01-02T00:00:00.000Z'' True ''id-1'' (Some b_pdf) no_body one_pdf))
     ''uploads/pdfs/b.pdf'' = Some ''new''"
  by (simp add: one_pdf_eq) (simp add: handler_defs example_defs)

theorem edit_fails_when_unlink_fails_witness:
  "map_of (pdfFiles one_pdf) ''id-1'' = Some (snd (hd (pdfFiles one_pdf))) \<and>
   find (\<lambda>file. filename file = up_originalname b_pdf \<and> id_md file \<noteq> ''id-1'')
           (values_of (pdfFiles one_pdf)) = None \<and>
   unlink True ((disk one_pdf)(''uploads/pdfs/b.pdf'' \<mapsto> ''new''))
     (filepath (snd (hd (pdfFiles one_pdf)))) = Inl EIO \<and>
   pdf_edit ''2024-01-02T00:00:00.000Z'' True ''id-1'' (Some b_pdf) no_body one_pdf =
     (Http_error 500 ''Error deleting old PDF file'',
      one_pdf\<lparr>disk := (disk one_pdf)(''uploads/pdfs/b.pdf'' \<mapsto> ''new'')\<rparr>) \<and>
   pdfFiles (snd (pdf_edit ''2024-01-02T00:00:00.000Z'' True ''id-1'' (Some b_pdf) no_body one_pdf)) =
     pdfFiles one_pdf \<and>
   map_of (pdfFiles orphan_pdf) ''id-1'' = Some (snd (hd (pdfFiles orphan_pdf))) \<and>
   unlink False ((disk orphan_pdf)(''uploads/pdfs/b.pdf'' \<mapsto> ''new''))
     (filepath (snd (hd (pdfFiles orphan_pdf)))) = Inl ENOENT \<and>
   pdf_edit ''2024-01-02T00:00:00.000Z'' False ''id-1'' (Some b_pdf) no_body orphan_pdf =
     (Http_error 500 ''Error deleting old PDF file'',
      orphan_pdf\<lparr>disk := (disk orphan_pdf)(''uploads/pdfs/b.pdf'' \<mapsto> ''new'')\<rparr>)"
proof -
  have h: "map_of (pdfFiles one_pdf) ''id-1'' = Some (snd (hd (pdfFiles one_pdf)))"
    by (simp add: one_pdf_eq)
  have k: "find (\<lambda>file. filename file = up_originalname b_pdf \<and> id_md file \<noteq> ''id-1'')
           (values_of (pdfFiles one_pdf)) = None"
    by (simp add: one_pdf_eq values_of_def)
  have p: "(if up_mimetype b_pdf = ''application/pdf'' then UPLOADS_PDFS_DIR else UPLOADS_IMAGES_DIR)
             @ up_originalname b_pdf = ''uploads/pdfs/b.pdf''"
    by (simp add: b_pdf_def UPLOADS_PDFS_DIR_def)
  have q: "up_bytes b_pdf = ''new''" by (simp add: b_pdf_def)
  have f: "unlink True ((disk one_pdf)(''uploads/pdfs/b.pdf'' \<mapsto> ''new''))
     (filepath (snd (hd (pdfFiles one_pdf)))) = Inl EIO"
    by (simp add: unlink_def)
  have h': "map_of (pdfFiles orphan_pdf) ''id-1'' = Some (snd (hd (pdfFiles orphan_pdf)))"
    by (simp add: orphan_pdf_eq)
  have k': "find (\<lambda>file. filename file = up_originalname b_pdf \<and> id_md file \<noteq> ''id-1'')
           (values_of (pdfFiles orphan_pdf)) = None"
    by (simp add: orphan_pdf_eq values_of_def)
  have f': "unlink False ((disk orphan_pdf)(''uploads/pdfs/b.pdf'' \<mapsto> ''new''))
     (filepath (snd (hd (pdfFiles orphan_pdf)))) = Inl ENOENT"
    by (simp add: orphan_pdf_eq unlink_def)
  note t = edit_fails_when_unlink_fails [where now = "''2024-01-02T00:00:00.000Z''" and b = no_body
      and u = b_pdf, unfolded p q]
  from h k f h' f' t [OF h k f] t [OF h' k' f'] show ?thesis by blast
qed




















lemmas run_defs = handler_defs example_defs

text \<open>
  Claim C1 fails on the code. Two creates and one edit, all successful, from the empty index:
  the edit carries only \<open>newFilename\<close>, which the handler assigns without the scan for a record
  of the same name that the create handler and the file branch of the edit handler make. Two
  live records are named \<open>a.pdf\<close>.
\<close>

theorem rename_breaks_uniqueness:
  "run [Create ''id-1'' ''2024-01-01T00:00:00.000Z'' (Some a_pdf),
        Create ''id-2'' ''2024-01-02T00:00:00.000Z'' (Some b_pdf),
        Edit ''2024-01-03T00:00:00.000Z'' False ''id-2'' None rename_to_a] empty_state = Some twins_pdf \<and>
   map filename (values_of (pdfFiles twins_pdf)) = [''a.pdf'', ''a.pdf''] \<and>
   \<not> distinct (map filename (values_of (pdfFiles twins_pdf)))"
  by (simp add: run_defs rename_to_a_def twins_pdf_def)







lemma is_digit_digit_char: "d < 10 \<Longrightarrow> is_digit (digit_char d)"
  by (simp add: is_digit_def digit_char_def)

lemma digit_val_digit_char: "d < 10 \<Longrightarrow> digit_val (digit_char d) = d"
  by (simp add: digit_val_def digit_char_def)

lemma of_char_digit_char: "d < 10 \<Longrightarrow> (of_char (digit_char d) :: nat) = 48 + d"
  by (simp add: digit_char_def)

lemma digit_char_eq_0: "d < 10 \<Longrightarrow> digit_char d = CHR ''0'' \<longleftrightarrow> d = 0"
proof
  assume "d < 10" "digit_char d = CHR ''0''"
  then have "(of_char (digit_char d) :: nat) = of_char (CHR ''0'')" by simp
  with \<open>d < 10\<close> show "d = 0" by (simp add: of_char_digit_char)
next
  assume "d = 0"
  then have "(of_char (digit_char d) :: nat) = of_char (CHR ''0'')"
    by (simp add: of_char_digit_char)
  then show "digit_char d = CHR ''0''" by (simp only: of_char_eq_iff)
qed

lemma show_nat_0: "show_nat 0 = ''0''"
  by (subst show_nat.simps) (simp add: digit_char_eq_0)

lemma show_nat_digits: "\<forall>c \<in> set (show_nat n). is_digit c"
  by (induction n rule: show_nat.induct) (subst show_nat.simps, simp add: is_digit_digit_char)

lemma show_nat_nonempty: "show_nat n \<noteq> []"
  by (subst show_nat.simps) simp

lemma take_digits_append:
  "\<forall>c \<in> set xs. is_digit c \<Longrightarrow>
   take_digits (xs @ ys) acc = take_digits ys (foldl (\<lambda>a c. a * 10 + digit_val c) acc xs)"
  by (induction xs arbitrary: acc) simp_all

lemma foldl_show_nat:
  "foldl (\<lambda>a c. a * 10 + digit_val c) acc (show_nat n) = acc * 10 ^ length (show_nat n) + n"
proof (induction n arbitrary: acc rule: show_nat.induct)
  case (1 n)
  show ?case
  proof (cases "n < 10")
    case True
    then show ?thesis by (subst (1 2) show_nat.simps) (simp add: digit_val_digit_char)
  next
    case False
    with 1 show ?thesis
      by (subst (1 2) show_nat.simps) (simp add: digit_val_digit_char algebra_simps)
  qed
qed

lemma hd_show_nat: "0 < n \<Longrightarrow> hd (show_nat n) \<noteq> CHR ''0''"
proof (induction n rule: show_nat.induct)
  case (1 n)
  show ?case
  proof (cases "n < 10")
    case True
    with 1 show ?thesis
      by (subst show_nat.simps) (simp add: digit_char_eq_0)
  next
    case False
    then have "0 < n div 10" by auto
    with 1 False show ?thesis
      by (subst show_nat.simps) (simp add: show_nat_nonempty)
  qed
qed

lemma take_digits_stop: "number_end ys \<Longrightarrow> take_digits ys acc = (acc, ys)"
  by (cases ys) (simp_all add: number_end_def)

lemma parse_nat_show_nat:
  assumes "number_end rest"
  shows "parse_nat (show_nat n @ rest) = Some (n, rest)"
proof (cases "n = 0")
  case True
  then show ?thesis by (simp add: parse_nat_def show_nat_0)
next
  case False
  obtain c cs where cs: "show_nat n = c # cs"
    using show_nat_nonempty [of n] by (cases "show_nat n") auto
  with hd_show_nat [of n] False have c0: "c \<noteq> CHR ''0''" by simp
  from cs show_nat_digits [of n] have dc: "is_digit c" and dcs: "\<forall>c \<in> set cs. is_digit c" by auto
  have "foldl (\<lambda>a c. a * 10 + digit_val c) 0 (show_nat n) = n"
    by (simp add: foldl_show_nat)
  then have f: "foldl (\<lambda>a c. a * 10 + digit_val c) (digit_val c) cs = n"
    by (simp add: cs)
  have "take_digits (cs @ rest) (digit_val c) = (n, rest)"
    by (simp add: take_digits_append [OF dcs] f take_digits_stop [OF assms])
  with c0 dc show ?thesis by (simp add: parse_nat_def cs)
qed

lemma show_nat_not_minus: "hd (show_nat n) \<noteq> CHR ''-''"
proof -
  obtain c cs where cs: "show_nat n = c # cs"
    using show_nat_nonempty [of n] by (cases "show_nat n") auto
  with show_nat_digits [of n] have "is_digit c" by auto
  then have "c \<noteq> CHR ''-''" by (auto simp: is_digit_def)
  with cs show ?thesis by simp
qed

lemma parse_number_show_int:
  assumes "number_end rest"
  shows "parse_number (show_int i @ rest) = Some (JNum i, rest)"
proof (cases "i < 0")
  case True
  then show ?thesis
    by (simp add: parse_number_def show_int_def parse_nat_show_nat [OF assms] assms)
next
  case False
  obtain c cs where cs: "show_nat (nat i) = c # cs"
    using show_nat_nonempty [of "nat i"] by (cases "show_nat (nat i)") auto
  with show_nat_not_minus [of "nat i"] have "c \<noteq> CHR ''-''" by simp
  moreover have "parse_nat ((c # cs) @ rest) = Some (nat i, rest)"
    using parse_nat_show_nat [OF assms, of "nat i"] by (simp add: cs)
  ultimately show ?thesis using False assms
    by (simp add: parse_number_def show_int_def cs)
qed


lemma hex_val_hex_char: "d < 16 \<Longrightarrow> hex_val (hex_char d) = Some d"
  by (simp add: hex_val_def hex_char_def Let_def)

lemma hex_val_0: "hex_val (CHR ''0'') = Some 0"
  by (simp add: hex_val_def)

lemma hex4_control:
  assumes "n < 32"
  shows "hex4 (CHR ''0'') (CHR ''0'') (hex_char (n div 16)) (hex_char (n mod 16)) = Some n"
proof -
  from assms have "n div 16 < 16" by simp
  then show ?thesis
    by (simp add: hex4_def hex_val_0 hex_val_hex_char)
qed

lemma str_body_control:
  assumes "(of_char c :: nat) < 32"
  shows "str_body (CHR 0x5C # CHR ''u'' # CHR ''0'' # CHR ''0'' #
            hex_char (of_char c div 16) # hex_char (of_char c mod 16) # t) =
         map_option (\<lambda>(s, r'). (c # s, r')) (str_body t)"
  using assms by (simp add: hex4_control utf8_def)

lemma str_body_short:
  "unescape e = Some c \<Longrightarrow> e \<noteq> CHR ''u'' \<Longrightarrow>
   str_body (CHR 0x5C # e # t) = map_option (\<lambda>(s, r'). (c # s, r')) (str_body t)"
  by simp

lemma str_body_plain:
  "c \<noteq> CHR 0x22 \<Longrightarrow> c \<noteq> CHR 0x5C \<Longrightarrow> \<not> (of_char c :: nat) < 32 \<Longrightarrow>
   str_body (c # t) = map_option (\<lambda>(s, r'). (c # s, r')) (str_body t)"
  by simp

lemma str_body_escape_char:
  "str_body (escape_char c @ t) = map_option (\<lambda>(s, r'). (c # s, r')) (str_body t)"
proof -
  consider "c = CHR 0x22" | "c = CHR 0x5C" | "c = CHR 0x08" | "c = CHR 0x0C" | "c = CHR 0x0A"
    | "c = CHR 0x0D" | "c = CHR 0x09"
    | "c \<notin> {CHR 0x22, CHR 0x5C, CHR 0x08, CHR 0x0C, CHR 0x0A, CHR 0x0D, CHR 0x09}" "(of_char c :: nat) < 32"
    | "c \<notin> {CHR 0x22, CHR 0x5C, CHR 0x08, CHR 0x0C, CHR 0x0A, CHR 0x0D, CHR 0x09}" "\<not> (of_char c :: nat) < 32"
    by blast
  then show ?thesis
  proof cases
    case 1 then show ?thesis by (simp add: escape_char_def unescape_def)
  next
    case 2 then show ?thesis by (simp add: escape_char_def unescape_def)
  next
    case 3 then show ?thesis by (simp add: escape_char_def unescape_def)
  next
    case 4 then show ?thesis by (simp add: escape_char_def unescape_def)
  next
    case 5 then show ?thesis by (simp add: escape_char_def unescape_def)
  next
    case 6 then show ?thesis by (simp add: escape_char_def unescape_def)
  next
    case 7 then show ?thesis by (simp add: escape_char_def unescape_def)
  next
    case 8
    then have "escape_char c = [CHR 0x5C, CHR ''u'', CHR ''0'', CHR ''0'',
         hex_char (of_char c div 16), hex_char (of_char c mod 16)]"
      by (simp add: escape_char_def)
    with 8 show ?thesis by (simp only: append_Cons append_Nil str_body_control)
  next
    case 9
    then have "escape_char c = [c]" by (simp add: escape_char_def)
    with 9 show ?thesis by (simp add: str_body_plain)
  qed
qed

lemma str_body_quote:
  "str_body (concat (map escape_char s) @ CHR 0x22 # rest) = Some (s, rest)"
  by (induction s) (simp_all add: str_body_escape_char del: str_body.simps(2), simp)


lemma delim_skip_ws: "delim s \<Longrightarrow> skip_ws s = s"
  by (cases s) (auto simp: delim_def json_ws_def)

lemma delim_number_end: "delim s \<Longrightarrow> number_end s"
  by (cases s) (auto simp: delim_def number_end_def is_digit_def)

lemma delim_simps: "delim (CHR '','' # s)" "delim (CHR '']'' # s)" "delim (CHR ''}'' # s)" "delim []"
  by (simp_all add: delim_def)

lemma is_digit_head_ok: "is_digit c \<Longrightarrow> head_ok c"
  by (auto simp: is_digit_def head_ok_def json_ws_def)

lemma show_int_head: "\<exists>c cs. show_int i = c # cs \<and> (c = CHR ''-'' \<or> is_digit c)"
proof -
  obtain c cs where "show_nat (nat i) = c # cs" "is_digit c"
    using show_nat_nonempty [of "nat i"] show_nat_digits [of "nat i"]
    by (cases "show_nat (nat i)") auto
  then show ?thesis by (auto simp: show_int_def)
qed

lemma stringify_head: "\<exists>c cs. JSON_stringify v = c # cs \<and> head_ok c"
proof (cases v)
  case (JNum i)
  obtain c cs where "show_int i = c # cs" "c = CHR ''-'' \<or> is_digit c"
    using show_int_head by blast
  moreover have "head_ok (CHR ''-'')" by (simp add: head_ok_def json_ws_def)
  ultimately show ?thesis using JNum is_digit_head_ok by auto
qed (auto simp: head_ok_def json_ws_def quote_def)

lemma join_head:
  assumes "xs \<noteq> []" and "\<forall>x \<in> set xs. \<exists>c cs. x = c # cs \<and> head_ok c"
  shows "\<exists>c cs. join xs = c # cs \<and> head_ok c"
proof (cases xs)
  case Nil
  with assms show ?thesis by simp
next
  case (Cons x ys)
  with assms(2) obtain c cs where "x = c # cs" "head_ok c" by auto
  with Cons show ?thesis by (cases ys) auto
qed

lemma skip_ws_head_ok: "head_ok c \<Longrightarrow> skip_ws (c # r) = c # r"
  by (simp add: head_ok_def)

lemma length_join_Cons:
  "ys \<noteq> [] \<Longrightarrow> length (join (x # ys)) = length x + 1 + length (join ys)"
  by (cases ys) simp_all

lemma join_Cons: "ys \<noteq> [] \<Longrightarrow> join (x # ys) = x @ CHR '','' # join ys"
  by (cases ys) simp_all

lemma parse_elems_join:
  assumes "\<And>v n rest. v \<in> set vs \<Longrightarrow> delim rest \<Longrightarrow> length (JSON_stringify v) \<le> n \<Longrightarrow>
             parse_value n (JSON_stringify v @ rest) = Some (v, rest)"
    and "vs \<noteq> []" and "delim rest" and "length (join (map JSON_stringify vs)) < n"
  shows "parse_elems n (join (map JSON_stringify vs) @ CHR '']'' # rest) acc =
           Some (JArr (acc @ vs), rest)"
  using assms
proof (induction vs arbitrary: n acc)
  case Nil
  then show ?case by simp
next
  case (Cons v ws)
  from Cons.prems(4) obtain m where n: "n = Suc m" by (cases n) auto
  show ?case
  proof (cases "ws = []")
    case True
    with Cons.prems(4) n have "length (JSON_stringify v) \<le> m" by simp
    then have "parse_value m (JSON_stringify v @ CHR '']'' # rest) = Some (v, CHR '']'' # rest)"
      by (intro Cons.prems(1)) (simp_all add: delim_simps)
    with True n show ?thesis by (simp add: json_ws_def)
  next
    case False
    with Cons.prems(4) n have l: "length (JSON_stringify v) \<le> m"
      and l': "length (join (map JSON_stringify ws)) < m"
      by (simp_all add: length_join_Cons)
    let ?t = "join (map JSON_stringify ws) @ CHR '']'' # rest"
    have "parse_value m (JSON_stringify v @ CHR '','' # ?t) = Some (v, CHR '','' # ?t)"
      using l by (intro Cons.prems(1)) (simp_all add: delim_simps)
    moreover have "parse_elems m ?t (acc @ [v]) = Some (JArr ((acc @ [v]) @ ws), rest)"
      using False Cons.prems(3) l' by (intro Cons.IH Cons.prems(1)) simp_all
    ultimately show ?thesis using False n by (simp add: join_Cons json_ws_def)
  qed
qed

lemma update_fresh: "k \<notin> fst ` set al \<Longrightarrow> AList.update k v al = al @ [(k, v)]"
  by (induction al) auto

lemma parse_members_join:
  assumes "\<And>p n rest. p \<in> set ps \<Longrightarrow> delim rest \<Longrightarrow> length (JSON_stringify (snd p)) \<le> n \<Longrightarrow>
             parse_value n (JSON_stringify (snd p) @ rest) = Some (snd p, rest)"
    and "ps \<noteq> []" and "delim rest" and "length (join (map member_text ps)) < n"
    and "distinct (map fst (acc @ ps))"
  shows "parse_members n (join (map member_text ps) @ CHR ''}'' # rest) acc =
           Some (JObj (acc @ ps), rest)"
  using assms
proof (induction ps arbitrary: n acc)
  case Nil
  then show ?case by simp
next
  case (Cons p ws)
  obtain k v where p: "p = (k, v)" by (cases p)
  from Cons.prems(4) obtain m where n: "n = Suc m" by (cases n) auto
  from Cons.prems(5) p have fresh: "AList.update k v acc = acc @ [(k, v)]"
    by (intro update_fresh) auto
  have mt: "member_text (k, v) = CHR 0x22 # concat (map escape_char k) @ CHR 0x22 # CHR '':'' # JSON_stringify v"
    by (simp add: member_text_def quote_def)
  show ?case
  proof (cases "ws = []")
    case True
    with Cons.prems(4) n have "length (JSON_stringify v) \<le> m"
      by (simp add: mt p)
    then have "parse_value m (JSON_stringify (snd p) @ CHR ''}'' # rest) = Some (snd p, CHR ''}'' # rest)"
      by (intro Cons.prems(1)) (simp_all add: delim_simps p)
    with True n fresh show ?thesis
      by (simp add: mt str_body_quote json_ws_def p del: str_body.simps)
  next
    case False
    with Cons.prems(4) n have l: "length (JSON_stringify v) \<le> m"
      and l': "length (join (map member_text ws)) < m"
      by (simp_all add: length_join_Cons mt p)
    let ?t = "join (map member_text ws) @ CHR ''}'' # rest"
    have "parse_value m (JSON_stringify (snd p) @ CHR '','' # ?t) = Some (snd p, CHR '','' # ?t)"
      using l by (intro Cons.prems(1)) (simp_all add: delim_simps p)
    moreover have "parse_members m ?t (acc @ [p]) = Some (JObj ((acc @ [p]) @ ws), rest)"
      using False Cons.prems(3) l' Cons.prems(5) by (intro Cons.IH Cons.prems(1)) simp_all
    ultimately show ?thesis using False n fresh
      by (simp add: join_Cons mt str_body_quote json_ws_def p del: str_body.simps)
  qed
qed


lemma parse_value_stringify:
  "wf_json v \<Longrightarrow> delim rest \<Longrightarrow> length (JSON_stringify v) \<le> n \<Longrightarrow>
   parse_value n (JSON_stringify v @ rest) = Some (v, rest)"
proof (induction v arbitrary: n rest)
  case JNull
  then obtain m where "n = Suc m" by (cases n) auto
  then show ?case by (simp add: json_ws_def)
next
  case (JBool b)
  then obtain m where "n = Suc m" by (cases n) (auto split: if_splits)
  then show ?case by (simp add: json_ws_def)
next
  case (JNum i)
  then obtain m where n: "n = Suc m"
    by (cases n) (auto simp: show_int_def show_nat_nonempty split: if_splits)
  obtain c cs where c: "show_int i = c # cs" "c = CHR ''-'' \<or> is_digit c"
    using show_int_head by blast
  then have h: "\<not> json_ws c" "c \<noteq> CHR ''[''" "c \<noteq> CHR ''{''" "c \<noteq> CHR 0x22"
    "c \<noteq> CHR ''t''" "c \<noteq> CHR ''f''" "c \<noteq> CHR ''n''"
    by (auto simp: json_ws_def is_digit_def)
  have "parse_number (show_int i @ rest) = Some (JNum i, rest)"
    using JNum.prems(2) by (intro parse_number_show_int delim_number_end)
  then have "parse_number (c # cs @ rest) = Some (JNum i, rest)" by (simp add: c)
  with h show ?case by (simp add: n c)
next
  case (JStr s)
  then obtain m where "n = Suc m" by (cases n) (auto simp: quote_def)
  then show ?case by (simp add: quote_def json_ws_def str_body_quote del: str_body.simps)
next
  case (JArr vs)
  then obtain m where n: "n = Suc m" by (cases n) auto
  show ?case
  proof (cases "vs = []")
    case True
    then show ?thesis by (simp add: n json_ws_def)
  next
    case False
    have "\<forall>x \<in> set (map JSON_stringify vs). \<exists>c cs. x = c # cs \<and> head_ok c"
      using stringify_head by auto
    with False obtain c cs where c: "join (map JSON_stringify vs) = c # cs" "head_ok c"
      using join_head [of "map JSON_stringify vs"] by auto
    from JArr.prems(3) n have l: "length (join (map JSON_stringify vs)) < m" by simp
    have "parse_elems m (join (map JSON_stringify vs) @ CHR '']'' # rest) [] = Some (JArr ([] @ vs), rest)"
      using False JArr.prems(2) l
    proof (intro parse_elems_join)
      fix v n rest
      assume "v \<in> set vs" "delim rest" "length (JSON_stringify v) \<le> n"
      with JArr.prems(1) show "parse_value n (JSON_stringify v @ rest) = Some (v, rest)"
        by (intro JArr.IH) auto
    qed
    then have "parse_elems m (c # cs @ CHR '']'' # rest) [] = Some (JArr vs, rest)"
      by (simp add: c)
    with c(2) show ?thesis
      by (simp add: n json_ws_def c(1) head_ok_def)
  qed
next
  case (JObj ps)
  then obtain m where n: "n = Suc m" by (cases n) auto
  have js: "JSON_stringify (JObj ps) = CHR ''{'' # join (map member_text ps) @ ''}''"
    by (simp add: member_text_def split_def cong: map_cong)
  show ?case
  proof (cases "ps = []")
    case True
    then show ?thesis by (simp add: n json_ws_def)
  next
    case False
    have "\<forall>x \<in> set (map member_text ps). \<exists>c cs. x = c # cs \<and> head_ok c"
      by (auto simp: member_text_def quote_def head_ok_def json_ws_def)
    with False obtain c cs where c: "join (map member_text ps) = c # cs" "head_ok c"
      using join_head [of "map member_text ps"] by auto
    from JObj.prems(3) n have l: "length (join (map member_text ps)) < m"
      by (simp add: js del: JSON_stringify.simps)
    have "parse_members m (join (map member_text ps) @ CHR ''}'' # rest) [] = Some (JObj ([] @ ps), rest)"
      using False JObj.prems(2) l
    proof (intro parse_members_join)
      fix p n rest
      assume "p \<in> set ps" "delim rest" "length (JSON_stringify (snd p)) \<le> n"
      with JObj.prems(1) show "parse_value n (JSON_stringify (snd p) @ rest) = Some (snd p, rest)"
        by (intro JObj.IH [of p]) (auto simp: snds.simps)
    next
      from JObj.prems(1) show "distinct (map fst ([] @ ps))" by simp
    qed
    then have "parse_members m (c # cs @ CHR ''}'' # rest) [] = Some (JObj ps, rest)"
      by (simp add: c)
    with c(2) show ?thesis
      by (simp add: n json_ws_def js c(1) head_ok_def del: JSON_stringify.simps)
  qed
qed

lemma JSON_roundtrip: "wf_json v \<Longrightarrow> JSON_parse (JSON_stringify v) = Inr v"
  using parse_value_stringify [of v "[]" "Suc (length (JSON_stringify v))"]
  by (simp add: JSON_parse_def delim_simps)


lemma wf_md_json: "wf_json (md_json md)"
  by (simp add: md_json_def)

lemma wf_entries: "wf_json (entries idx)"
  by (auto simp: entries_def wf_md_json)

lemma not_blank_bracket: "\<not> blank (CHR ''['' # s)"
  by (cases s; cases "tl s") (simp_all add: ascii_space_def wide_space_def)

lemma not_blank_entries: "\<not> blank (JSON_stringify (entries idx))"
  by (simp add: entries_def not_blank_bracket del: blank.simps)

lemma add_entries_index:
  "distinct (map fst idx) \<Longrightarrow> \<forall>k \<in> fst ` set idx. Some (JStr k) \<notin> fst ` set acc \<Longrightarrow>
   add_entries (map (\<lambda>(k, md). JArr [JStr k, md_json md]) idx) acc = Inr (acc @ js_of_index idx)"
proof (induction idx arbitrary: acc)
  case Nil
  then show ?case by (simp add: js_of_index_def)
next
  case (Cons p idx)
  obtain k md where p: "p = (k, md)" by (cases p)
  from Cons.prems(2) p have "Some (JStr k) \<notin> fst ` set acc" by simp
  then have s: "map_set (Some (JStr k)) (Some (md_json md)) acc = acc @ [(Some (JStr k), Some (md_json md))]"
    by (simp add: map_set_def update_fresh)
  have "add_entries (map (\<lambda>(k, md). JArr [JStr k, md_json md]) idx)
          (acc @ [(Some (JStr k), Some (md_json md))]) =
        Inr ((acc @ [(Some (JStr k), Some (md_json md))]) @ js_of_index idx)"
    using Cons.prems p by (intro Cons.IH) (auto simp: image_iff)
  then show ?case by (simp add: p s js_of_index_def)
qed

lemma new_Map_entries:
  "distinct (map fst idx) \<Longrightarrow> new_Map (entries idx) = Inr (js_of_index idx)"
  using add_entries_index [of idx "[]"] by (simp add: entries_def)

lemma md_json_inj: "md_json a = md_json b \<Longrightarrow> a = b"
  by (cases a; cases b) (simp add: md_json_def)

lemma js_of_index_inj: "js_of_index a = js_of_index b \<Longrightarrow> a = b"
proof (induction a arbitrary: b)
  case Nil
  then show ?case by (simp add: js_of_index_def)
next
  case (Cons p a)
  then obtain q b' where b: "b = q # b'" by (cases b) (auto simp: js_of_index_def)
  with Cons.prems have "js_of_index a = js_of_index b'" and "p = q"
    by (auto simp: js_of_index_def split_def prod_eq_iff dest: md_json_inj)
  with Cons.IH b show ?case by simp
qed

text \<open>
  Claim C7. For every index with distinct ids (as every \<^verbatim>\<open>Map\<close> has), loading the text that
  saving wrote gives back the \<^verbatim>\<open>Map\<close> of that index: the same ids in the same order, each with
  a record of equal id, filename, filepath, size, uploadDate and editDate. An index is determined
  by its \<^verbatim>\<open>Map\<close>.
\<close>

theorem snapshot_roundtrip:
  assumes "distinct (map fst idx)"
  shows "loadPdfFilesDataFromFile JSON_parse
           (Inr (savedPdfFilesDataToFile JSON_stringify idx)) m = Inr (js_of_index idx) \<and>
         (\<forall>idx'. js_of_index idx' = js_of_index idx \<longrightarrow> idx' = idx)"
proof
  have "JSON_parse (JSON_stringify (entries idx)) = Inr (entries idx)"
    by (rule JSON_roundtrip) (rule wf_entries)
  then show "loadPdfFilesDataFromFile JSON_parse
           (Inr (savedPdfFilesDataToFile JSON_stringify idx)) m = Inr (js_of_index idx)"
    using assms
    by (simp add: loadPdfFilesDataFromFile_def load_try_def savedPdfFilesDataToFile_def
          not_blank_entries new_Map_entries)
  show "\<forall>idx'. js_of_index idx' = js_of_index idx \<longrightarrow> idx' = idx"
    using js_of_index_inj by blast
qed

theorem snapshot_roundtrip_witness:
  "distinct (map fst (pdfFiles one_pdf)) \<and>
   loadPdfFilesDataFromFile JSON_parse
     (Inr (savedPdfFilesDataToFile JSON_stringify (pdfFiles one_pdf))) [] =
   Inr (js_of_index (pdfFiles one_pdf))"
proof -
  have h: "distinct (map fst (pdfFiles one_pdf))" by (simp add: one_pdf_eq)
  from h snapshot_roundtrip [OF h, of "[]"] show ?thesis by blast
qed

text \<open>
  Claim C6. Loading always ends with a \<^verbatim>\<open>Map\<close> and never with an error, whatever
  \<^verbatim>\<open>JSON.parse\<close> does. A file that cannot be read gives the empty \<^verbatim>\<open>Map\<close>; a blank file leaves
  \<^verbatim>\<open>pdfFiles\<close> as it is, which at startup is the empty \<^verbatim>\<open>Map\<close>; a text that is not blank and that
  \<^verbatim>\<open>JSON.parse\<close> rejects, or whose value \<^verbatim>\<open>new Map\<close> rejects, gives the empty \<^verbatim>\<open>Map\<close>.
\<close>

theorem load_total:
  "(\<exists>m'. loadPdfFilesDataFromFile parse file m = Inr m') \<and>
   loadPdfFilesDataFromFile parse (Inl e) m = Inr [] \<and>
   (blank data \<longrightarrow> loadPdfFilesDataFromFile parse (Inr data) m = Inr m \<and>
                     loadPdfFilesDataFromFile parse (Inr data) [] = Inr []) \<and>
   (\<not> blank data' \<and> (parse data' = Inl err \<or> (\<exists>v. parse data' = Inr v \<and> new_Map v = Inl err)) \<longrightarrow>
      loadPdfFilesDataFromFile parse (Inr data') m = Inr [])"
proof (intro conjI impI)
  show "\<exists>m'. loadPdfFilesDataFromFile parse file m = Inr m'"
    by (simp add: loadPdfFilesDataFromFile_def split: sum.split)
  show "loadPdfFilesDataFromFile parse (Inl e) m = Inr []"
    by (simp add: loadPdfFilesDataFromFile_def load_try_def)
next
  assume "blank data"
  then show "loadPdfFilesDataFromFile parse (Inr data) m = Inr m"
    and "loadPdfFilesDataFromFile parse (Inr data) [] = Inr []"
    by (simp_all add: loadPdfFilesDataFromFile_def load_try_def)
next
  assume "\<not> blank data' \<and>
    (parse data' = Inl err \<or> (\<exists>v. parse data' = Inr v \<and> new_Map v = Inl err))"
  then have "\<exists>x. load_try parse (Inr data') m = Inl x"
    by (auto simp: load_try_def)
  then show "loadPdfFilesDataFromFile parse (Inr data') m = Inr []"
    by (auto simp: loadPdfFilesDataFromFile_def)
qed

theorem load_total_witness:
  "loadPdfFilesDataFromFile JSON_parse (Inl ENOENT) [] = Inr [] \<and>
   blank ''  '' \<and> loadPdfFilesDataFromFile JSON_parse (Inr ''  '') [] = Inr [] \<and>
   \<not> blank ''{'' \<and> JSON_parse ''{'' = Inl SyntaxError \<and>
   loadPdfFilesDataFromFile JSON_parse (Inr ''{'') [] = Inr []"
proof -
  have b: "blank ''  ''" by (simp add: ascii_space_def)
  have n: "\<not> blank ''{''" by (simp add: ascii_space_def)
  have p: "JSON_parse ''{'' = Inl SyntaxError" by (simp add: JSON_parse_def json_ws_def)
  note t = load_total [where parse = JSON_parse and e = ENOENT and m = "[]" and data = "''  ''"
      and data' = "''{''" and err = SyntaxError]
  from t b n p show ?thesis by blast
qed

end
